theory Spec2Isabelle
  imports Main "HOL-Library.Sublist"
begin

section \<open>The real-time reload server (class RealTimeServer)\<close>

text \<open>
  A shallow embedding of the TypeScript class \<open>RealTimeServer\<close>: its fields are a record,
  its methods are functions on that record, and the objects it talks to (the file system,
  the MIME table, the listening socket, the WebSocket connections) are explicit values.
  The calls into Node's \<open>path\<close>, \<open>Buffer\<close> and \<open>http\<close> modules, into \<open>ws\<close> and into \<open>mime\<close> are
  modelled after the behaviour of those libraries on POSIX; each such model says so.
\<close>

subsection \<open>JavaScript strings\<close>

text \<open>\<open>String.prototype.startsWith\<close>.\<close>

definition startsWith :: "string \<Rightarrow> string \<Rightarrow> bool" where
  "startsWith s p = prefix p s"

text \<open>
  \<open>String.prototype.includes\<close>: some suffix of the subject starts with the pattern.
  This and the next two functions work on any list, so that they serve both for byte
  strings and for the decoded text of a file.
\<close>

fun str_includes :: "'a list \<Rightarrow> 'a list \<Rightarrow> bool" where
  "str_includes [] pat = (pat = [])"
| "str_includes (c # cs) pat = (prefix pat (c # cs) \<or> str_includes cs pat)"

text \<open>
  \<open>String.prototype.replace\<close> with a string pattern: only the first occurrence is replaced.
  The replacement is taken literally; JavaScript reads \<open>$\<close> sequences in it, and the
  replacement built by \<open>handleRequest\<close> contains none (lemma \<open>script_no_dollar\<close>).
\<close>

fun replace :: "'a list \<Rightarrow> 'a list \<Rightarrow> 'a list \<Rightarrow> 'a list" where
  "replace [] pat rep = (if pat = [] then rep else [])"
| "replace (c # cs) pat rep =
     (if prefix pat (c # cs) then rep @ drop (length pat) (c # cs)
      else c # replace cs pat rep)"

text \<open>
  \<open>String.prototype.indexOf\<close>: where the first occurrence of the pattern starts.
  The methods do not call it; the theorems use it to say where \<open>replace\<close> writes.
\<close>

fun indexOf :: "'a list \<Rightarrow> 'a list \<Rightarrow> nat option" where
  "indexOf [] pat = (if pat = [] then Some 0 else None)"
| "indexOf (c # cs) pat =
     (if prefix pat (c # cs) then Some 0 else map_option Suc (indexOf cs pat))"

text \<open>\<open>String.prototype.toLowerCase\<close> on the ASCII letters.\<close>

definition toLowerChar :: "char \<Rightarrow> char" where
  "toLowerChar c =
     (case map_of (zip ''ABCDEFGHIJKLMNOPQRSTUVWXYZ'' ''abcdefghijklmnopqrstuvwxyz'') c of
        Some d \<Rightarrow> d
      | None \<Rightarrow> c)"

definition toLowerCase :: "string \<Rightarrow> string" where
  "toLowerCase s = map toLowerChar s"

text \<open>The decimal text of a number, as a template literal prints a non-negative integer.\<close>

definition digit :: "nat \<Rightarrow> char" where
  "digit d = ''0123456789'' ! d"

function number_toString :: "nat \<Rightarrow> string" where
  "number_toString n =
     (if n < 10 then [digit n] else number_toString (n div 10) @ [digit (n mod 10)])"
  by pat_completeness auto
termination
  by (relation "measure id") auto

subsection \<open>Node's \<open>path\<close> module (POSIX)\<close>

text \<open>The segments of a path between its \<open>/\<close> separators.\<close>

fun segments :: "string \<Rightarrow> string list" where
  "segments [] = [[]]"
| "segments (c # cs) =
     (if c = CHR ''/'' then [] # segments cs
      else (case segments cs of
              [] \<Rightarrow> [[c]]
            | w # ws \<Rightarrow> (c # w) # ws))"

text \<open>
  \<open>normalizeString\<close>: empty and \<open>.\<close> segments are dropped; \<open>..\<close> removes the segment
  before it unless there is none or it is itself \<open>..\<close>, in which case it is kept only
  when the path is relative (\<open>allowAboveRoot\<close>).
\<close>

definition normalizeStep :: "bool \<Rightarrow> string list \<Rightarrow> string \<Rightarrow> string list" where
  "normalizeStep allowAboveRoot res seg =
     (if seg = [] \<or> seg = ''.'' then res
      else if seg = ''..'' then
        (if res \<noteq> [] \<and> last res \<noteq> ''..'' then butlast res
         else if allowAboveRoot then res @ [''..'']
         else res)
      else res @ [seg])"

fun joinSegments :: "string list \<Rightarrow> string" where
  "joinSegments [] = []"
| "joinSegments [s] = s"
| "joinSegments (s # t # ss) = s @ ''/'' @ joinSegments (t # ss)"

definition normalizeString :: "string \<Rightarrow> bool \<Rightarrow> string" where
  "normalizeString p allowAboveRoot =
     joinSegments (foldl (normalizeStep allowAboveRoot) [] (segments p))"

text \<open>\<open>path.normalize\<close>.\<close>

definition normalize :: "string \<Rightarrow> string" where
  "normalize p =
     (if p = [] then ''.''
      else
        let isAbsolute = (hd p = CHR ''/'');
            trailingSeparator = (last p = CHR ''/'');
            q = normalizeString p (\<not> isAbsolute)
        in if q = [] then
             (if isAbsolute then ''/'' else if trailingSeparator then ''./'' else ''.'')
           else (if isAbsolute then ''/'' else []) @ q
                @ (if trailingSeparator then ''/'' else []))"

text \<open>\<open>path.join\<close> of two strings: the non-empty ones, joined by \<open>/\<close> and normalized.\<close>

definition path_join :: "string \<Rightarrow> string \<Rightarrow> string" where
  "path_join a b =
     (if a = [] \<and> b = [] then ''.''
      else if a = [] then normalize b
      else if b = [] then normalize a
      else normalize (a @ ''/'' @ b))"

text \<open>
  \<open>path.extname\<close>: the last path component, trailing separators ignored, from its last
  dot on; empty when there is no dot, when the only dot opens the component, and for
  \<open>..\<close>.
\<close>

definition stripTrailingSlashes :: "string \<Rightarrow> string" where
  "stripTrailingSlashes p = rev (dropWhile (\<lambda>c. c = CHR ''/'') (rev p))"

definition lastComponent :: "string \<Rightarrow> string" where
  "lastComponent p = rev (takeWhile (\<lambda>c. c \<noteq> CHR ''/'') (rev (stripTrailingSlashes p)))"

definition extname :: "string \<Rightarrow> string" where
  "extname p =
     (let base = lastComponent p;
          ext = rev (takeWhile (\<lambda>c. c \<noteq> CHR ''.'') (rev base))
      in if CHR ''.'' \<notin> set base then []
         else if length ext + 1 = length base then []
         else if base = ''..'' then []
         else CHR ''.'' # ext)"

subsection \<open>The \<open>mime\<close> package\<close>

text \<open>
  \<open>mime.getType\<close> (mime 2 and 3): the text after the last separator, lower-cased, then
  the text after its last dot, looked up in the table of types when the name has a dot
  after its first character, or when the path is a bare extension such as \<open>html\<close>. A
  dot-file such as \<open>/a/.html\<close> and a name without a dot such as \<open>/a/css\<close> have no type.
  The table is a parameter of the lookup; \<open>standardTypes\<close> holds the entries of the
  package's table that the examples below use.
\<close>

definition afterLast :: "(char \<Rightarrow> bool) \<Rightarrow> string \<Rightarrow> string" where
  "afterLast sep s = rev (takeWhile (\<lambda>c. \<not> sep c) (rev s))"

definition mime_getType :: "(string \<Rightarrow> string option) \<Rightarrow> string \<Rightarrow> string option" where
  "mime_getType types p =
     (let lastPart = toLowerCase (afterLast (\<lambda>c. c = CHR ''/'' \<or> c = CHR 0x5C) p);
          ext = toLowerCase (afterLast (\<lambda>c. c = CHR ''.'') lastPart);
          hasPath = (length lastPart < length p);
          hasDot = (length ext + 1 < length lastPart)
      in if hasDot \<or> \<not> hasPath then types ext else None)"

definition standardTypes :: "string \<Rightarrow> string option" where
  "standardTypes = map_of
     [(''html'', ''text/html''), (''htm'', ''text/html''), (''shtml'', ''text/html''),
      (''css'', ''text/css''), (''js'', ''application/javascript''),
      (''json'', ''application/json''), (''txt'', ''text/plain''),
      (''png'', ''image/png'')]"

subsection \<open>Buffers and UTF-8\<close>

text \<open>
  A \<open>Buffer\<close> is a byte string, here a \<open>string\<close>, each \<open>char\<close> one byte. A JavaScript
  string is modelled as the list of its characters, each character written as the bytes
  of its UTF-8 encoding, so that a string made of ASCII characters is a list of
  one-byte characters (\<open>jsLiteral\<close>), and writing a string to the response
  (\<open>res.end\<close>, which encodes as UTF-8) is the concatenation of its characters.

  \<open>Buffer.prototype.toString()\<close> decodes UTF-8: it cuts the bytes into well-formed
  characters (Unicode, table 3-7), and replaces every maximal ill-formed part by the
  character U+FFFD, whose encoding is \<open>EF BF BD\<close>.
\<close>

type_synonym jsstring = "string list"

definition byte :: "char \<Rightarrow> nat" where
  "byte c = of_char c"

definition inRange :: "nat \<Rightarrow> nat \<Rightarrow> char \<Rightarrow> bool" where
  "inRange lo hi c = (lo \<le> byte c \<and> byte c \<le> hi)"

text \<open>
  The number of bytes that must follow a first byte, 0 for a byte that can not start a
  character of several bytes; and the bounds of the second byte, which depend on the
  first. Every later byte lies between 80 and BF.
\<close>

definition bytesNeeded :: "char \<Rightarrow> nat" where
  "bytesNeeded b1 =
     (if inRange 0xC2 0xDF b1 then 1
      else if inRange 0xE0 0xEF b1 then 2
      else if inRange 0xF0 0xF4 b1 then 3
      else 0)"

definition lowerBound :: "char \<Rightarrow> nat" where
  "lowerBound b1 = (if byte b1 = 0xE0 then 0xA0 else if byte b1 = 0xF0 then 0x90 else 0x80)"

definition upperBound :: "char \<Rightarrow> nat" where
  "upperBound b1 = (if byte b1 = 0xED then 0x9F else if byte b1 = 0xF4 then 0x8F else 0xBF)"

text \<open>How many of the \<open>n\<close> bytes needed are there, the first one within the given bounds.\<close>

fun continuations :: "nat \<Rightarrow> nat \<Rightarrow> nat \<Rightarrow> string \<Rightarrow> nat" where
  "continuations n lo hi [] = 0"
| "continuations n lo hi (b # bs) =
     (if n = 0 \<or> \<not> inRange lo hi b then 0
      else 1 + continuations (n - 1) 0x80 0xBF bs)"

definition replacementCharacter :: string where
  "replacementCharacter = [CHR 0xEF, CHR 0xBF, CHR 0xBD]"

function toString :: "string \<Rightarrow> jsstring" where
  "toString [] = []"
| "toString (b1 # rest) =
     (if byte b1 < 0x80 then [b1] # toString rest
      else
        let n = bytesNeeded b1;
            k = continuations n (lowerBound b1) (upperBound b1) rest
        in if n \<noteq> 0 \<and> k = n then (b1 # take n rest) # toString (drop n rest)
           else replacementCharacter # toString (drop k rest))"
  by pat_completeness auto
termination
  by (relation "measure length") auto

text \<open>A string literal of the source made of ASCII characters, and the write of a string.\<close>

definition jsLiteral :: "string \<Rightarrow> jsstring" where
  "jsLiteral s = map (\<lambda>c. [c]) s"

definition encodeUtf8 :: "jsstring \<Rightarrow> string" where
  "encodeUtf8 t = concat t"

text \<open>
  The theorems speak of a file's content decoded and encoded again, and of well-formed
  UTF-8, on which that changes nothing (lemma \<open>reencoded_wellFormed\<close>).
\<close>

definition reencoded :: "string \<Rightarrow> string" where
  "reencoded d = encodeUtf8 (toString d)"

function wellFormedUtf8 :: "string \<Rightarrow> bool" where
  "wellFormedUtf8 [] = True"
| "wellFormedUtf8 (b1 # rest) =
     (if byte b1 < 0x80 then wellFormedUtf8 rest
      else
        let n = bytesNeeded b1
        in n \<noteq> 0 \<and> continuations n (lowerBound b1) (upperBound b1) rest = n
           \<and> wellFormedUtf8 (drop n rest))"
  by pat_completeness auto
termination
  by (relation "measure length") auto

definition isAscii :: "string \<Rightarrow> bool" where
  "isAscii s = list_all (\<lambda>c. byte c < 0x80) s"

text \<open>
  A character of a decoded string is one ASCII byte, or some bytes none of which is
  ASCII: no ASCII byte is ever part of a longer character.
\<close>

definition isCharacter :: "string \<Rightarrow> bool" where
  "isCharacter ch =
     (ch \<noteq> [] \<and> (if byte (hd ch) < 0x80 then length ch = 1
                  else list_all (\<lambda>c. 0x80 \<le> byte c) ch))"

subsection \<open>The file system and the response\<close>

text \<open>
  A path names a regular file with its bytes, something that exists and cannot be read
  as a file (a directory, a file without read permission), or nothing.
\<close>

datatype error = Error string

datatype fs_node = RegularFile string | Unreadable

record env =
  fs :: "string \<Rightarrow> fs_node option"
  mimeTypes :: "string \<Rightarrow> string option"

definition existsSync :: "env \<Rightarrow> string \<Rightarrow> bool" where
  "existsSync e p = (fs e p \<noteq> None)"

definition readFile :: "env \<Rightarrow> string \<Rightarrow> error + string" where
  "readFile e p =
     (case fs e p of
        Some (RegularFile d) \<Rightarrow> Inr d
      | Some Unreadable \<Rightarrow> Inl (Error ''EISDIR or EACCES'')
      | None \<Rightarrow> Inl (Error ''ENOENT''))"

record response =
  status :: nat
  contentType :: string
  body :: string

subsection \<open>The class\<close>

datatype http_server = HttpServer (address: "nat option")

datatype ws_server = WebSocketServer

datatype fs_watcher = FSWatcher string

type_synonym ws_id = nat

record RealTimeServer =
  server :: "http_server option"
  wss :: "ws_server option"
  clients :: "ws_id list"
  watcher :: "fs_watcher option"
  rootPath :: string
  port :: nat
  entryFile :: string
  isRunning :: bool

text \<open>The constructor, with its defaults for the port and the entry file.\<close>

definition new_RealTimeServer :: "string \<Rightarrow> nat option \<Rightarrow> string option \<Rightarrow> RealTimeServer" where
  "new_RealTimeServer root p entry =
     \<lparr>server = None, wss = None, clients = [], watcher = None,
      rootPath = root,
      port = (case p of None \<Rightarrow> 5500 | Some n \<Rightarrow> n),
      entryFile = (case entry of None \<Rightarrow> ''index.html'' | Some f \<Rightarrow> f),
      isRunning = False\<rparr>"

text \<open>
  \<open>getWebSocketClientScript\<close>: the template literal, as its text before \<open>${this.port}\<close>,
  the port in decimal, and its text after.
\<close>

definition scriptHead :: string where
  "scriptHead =
     ''\<newline><script>\<newline>(function() {\<newline>''
     @ ''    const ws = new WebSocket('ws://localhost:''"

definition scriptTail :: string where
  "scriptTail =
     [CHR 0x27] @ '');\<newline>''
     @ ''    ws.onmessage = function(event) {\<newline>''
     @ ''        if (event.data === 'reload') {\<newline>''
     @ ''            location.reload();\<newline>''
     @ ''        }\<newline>''
     @ ''    };\<newline>''
     @ ''    ws.onopen = function() {\<newline>''
     @ ''        console.log('Real-time reload connected');\<newline>''
     @ ''    };\<newline>''
     @ ''    ws.onclose = function() {\<newline>''
     @ ''        console.log('Real-time reload disconnected');\<newline>''
     @ ''    };\<newline>''
     @ ''})();\<newline>''
     @ ''</script>''"

definition getWebSocketClientScript :: "RealTimeServer \<Rightarrow> string" where
  "getWebSocketClientScript this = scriptHead @ number_toString (port this) @ scriptTail"

text \<open>
  The callback of \<open>fs.readFile\<close> in \<open>handleRequest\<close>: 500 when the read failed; a file
  whose extension is \<open>.html\<close> in any letter case is decoded, gets the script put before
  the first \<open></body>\<close> of its text, and is written as a string; any other file is sent
  as the buffer that was read.
\<close>

definition sendFile :: "env \<Rightarrow> RealTimeServer \<Rightarrow> string \<Rightarrow> response" where
  "sendFile e this filePath =
     (case readFile e filePath of
        Inl err \<Rightarrow>
          \<lparr>status = 500, contentType = ''text/plain'', body = ''Internal server error''\<rparr>
      | Inr data \<Rightarrow>
          if toLowerCase (extname filePath) = ''.html'' then
            \<lparr>status = 200,
             contentType = (case mime_getType (mimeTypes e) filePath of
                              Some t \<Rightarrow> t | None \<Rightarrow> ''text/html''),
             body = encodeUtf8
                      (replace (toString data) (jsLiteral ''</body>'')
                         (jsLiteral (getWebSocketClientScript this) @ jsLiteral ''</body>''))\<rparr>
          else
            \<lparr>status = 200,
             contentType = (case mime_getType (mimeTypes e) filePath of
                              Some t \<Rightarrow> t | None \<Rightarrow> ''application/octet-stream''),
             body = data\<rparr>)"

text \<open>
  \<open>handleRequest\<close>, from the request's \<open>url\<close> (which may be undefined) to the response.
  Its synchronous part either answers at once (403, 404) or settles on the file to read;
  the callback of \<open>fs.readFile\<close> then answers. The \<open>catch\<close> branch answers 500 to an
  exception of the synchronous part; none of the calls modelled here raises one.
\<close>

definition requestPath :: "RealTimeServer \<Rightarrow> string option \<Rightarrow> string" where
  "requestPath this url =
     path_join (rootPath this)
       (if url = Some ''/'' then entryFile this
        else (case url of None \<Rightarrow> [] | Some u \<Rightarrow> u))"

definition resolveFile :: "env \<Rightarrow> RealTimeServer \<Rightarrow> string option \<Rightarrow> response + string" where
  "resolveFile e this url =
     (let filePath = requestPath this url
      in if \<not> startsWith filePath (rootPath this) then
           Inl \<lparr>status = 403, contentType = ''text/plain'', body = ''Forbidden''\<rparr>
         else if existsSync e filePath then Inr filePath
         else
           let fallbackPath = path_join (rootPath this) ''index.html''
           in if existsSync e fallbackPath then Inr fallbackPath
              else Inl \<lparr>status = 404, contentType = ''text/plain'', body = ''File not found''\<rparr>)"

definition handleRequest :: "env \<Rightarrow> RealTimeServer \<Rightarrow> string option \<Rightarrow> response" where
  "handleRequest e this url =
     (case resolveFile e this url of
        Inl early \<Rightarrow> early
      | Inr filePath \<Rightarrow> sendFile e this filePath)"

subsection \<open>Starting and stopping\<close>

text \<open>
  What \<open>server.listen(port, callback)\<close> of Node does: it raises at once (a port out of
  range); or the bind fails (the port is in use) and the server emits an \<open>error\<close> event,
  the callback never being called; or it binds a port and calls the callback, without an
  argument. The bound port is the requested one, or one the operating system picks when
  0 was asked.
\<close>

datatype listen_result = ListenThrows error | ListenErrorEvent error | Listening nat

datatype 'a promise = Pending | Resolved 'a | Rejected error

definition already_running :: error where
  "already_running = Error ''Real-time server is already running''"

definition setupFileWatcher :: "RealTimeServer \<Rightarrow> RealTimeServer" where
  "setupFileWatcher this = this\<lparr>watcher := Some (FSWatcher (rootPath this))\<rparr>"

text \<open>
  The body of \<open>start\<close> up to the call of \<open>listen\<close>: the check of the running flag, the
  HTTP server, the WebSocket server, the watcher. An exception of \<open>listen\<close> rejects the
  promise in whose executor it is raised; otherwise the promise waits for the callback.
\<close>

definition start_call :: "listen_result \<Rightarrow> RealTimeServer \<Rightarrow> nat promise \<times> RealTimeServer" where
  "start_call r this =
     (if isRunning this then (Rejected already_running, this)
      else
        let this1 = this\<lparr>server := Some (HttpServer None)\<rparr>;
            this2 = this1\<lparr>wss := Some WebSocketServer\<rparr>;
            this3 = setupFileWatcher this2
        in (case r of
              ListenThrows err \<Rightarrow> (Rejected err, this3)
            | _ \<Rightarrow> (Pending, this3)))"

text \<open>
  The callback of \<open>listen\<close> as the source writes it: with an error it rejects; without one
  it sets the flag and resolves with \<open>this.server.address().port\<close>. Were the server gone or
  unbound, reading the port would raise inside the callback and leave the promise
  unsettled.
\<close>

definition listen_callback :: "error option \<Rightarrow> RealTimeServer \<Rightarrow> nat promise \<times> RealTimeServer" where
  "listen_callback err this =
     (case err of
        Some e \<Rightarrow> (Rejected e, this)
      | None \<Rightarrow>
          let this1 = this\<lparr>isRunning := True\<rparr>
          in (case server this1 of
                Some (HttpServer (Some actualPort)) \<Rightarrow> (Resolved actualPort, this1)
              | _ \<Rightarrow> (Pending, this1)))"

text \<open>The HTTP server of the session, once its socket is bound to a port.\<close>

definition bound :: "nat \<Rightarrow> RealTimeServer \<Rightarrow> RealTimeServer" where
  "bound p this =
     (case server this of
        Some s \<Rightarrow> this\<lparr>server := Some (HttpServer (Some p))\<rparr>
      | None \<Rightarrow> this)"

text \<open>
  \<open>start\<close> from the call on, when nothing else runs between the call and the callback of
  \<open>listen\<close>. Node calls the callback only once the socket is bound, and never with an
  error: after an \<open>error\<close> event, for which \<open>start\<close> installs no handler, the promise is
  neither resolved nor rejected.
\<close>

definition start :: "listen_result \<Rightarrow> RealTimeServer \<Rightarrow> nat promise \<times> RealTimeServer" where
  "start r this =
     (case start_call r this of
        (Pending, this') \<Rightarrow>
          (case r of
             ListenThrows e \<Rightarrow> (Pending, this')
           | ListenErrorEvent e \<Rightarrow> (Pending, this')
           | Listening p \<Rightarrow> listen_callback None (bound p this'))
      | settled \<Rightarrow> settled)"

subsection \<open>Connections\<close>

text \<open>
  A WebSocket of the \<open>ws\<close> package: its ready state, whether its transport still carries
  frames to the browser, the frames \<open>send\<close> has written and the frames that arrived.
  The sockets live in a store; the session's \<open>clients\<close> set holds their keys, in the
  order a JavaScript \<open>Set\<close> keeps (insertion order, no duplicates).
\<close>

datatype ready_state = CONNECTING | OPEN | CLOSING | CLOSED

record websocket =
  readyState :: ready_state
  transportOk :: bool
  sent :: "string list"
  delivered :: "string list"

type_synonym sockets = "ws_id \<Rightarrow> websocket"

definition set_add :: "ws_id \<Rightarrow> ws_id list \<Rightarrow> ws_id list" where
  "set_add ws cs = (if ws \<in> set cs then cs else cs @ [ws])"

definition set_delete :: "ws_id \<Rightarrow> ws_id list \<Rightarrow> ws_id list" where
  "set_delete ws cs = removeAll ws cs"

text \<open>The handlers \<open>start\<close> installs: \<open>connection\<close> on the server, \<open>close\<close> and \<open>error\<close> on a socket.\<close>

definition on_connection :: "ws_id \<Rightarrow> RealTimeServer \<Rightarrow> RealTimeServer" where
  "on_connection ws this = this\<lparr>clients := set_add ws (clients this)\<rparr>"

definition on_close :: "ws_id \<Rightarrow> RealTimeServer \<Rightarrow> RealTimeServer" where
  "on_close ws this = this\<lparr>clients := set_delete ws (clients this)\<rparr>"

definition on_error :: "ws_id \<Rightarrow> RealTimeServer \<Rightarrow> RealTimeServer" where
  "on_error ws this = this\<lparr>clients := set_delete ws (clients this)\<rparr>"

text \<open>
  \<open>WebSocket.send\<close> of \<open>ws\<close>: it raises while the socket is connecting, drops the data
  when the socket is closing or closed, and otherwise writes a frame. A frame written to
  a broken transport is lost; \<open>ws\<close> reports that later through the socket's \<open>error\<close>
  event, not by an exception of \<open>send\<close>.
\<close>

definition ws_send :: "websocket \<Rightarrow> string \<Rightarrow> error + websocket" where
  "ws_send sock msg =
     (if readyState sock = CONNECTING then
        Inl (Error ''WebSocket is not open: readyState 0 (CONNECTING)'')
      else if readyState sock \<noteq> OPEN then Inr sock
      else Inr (sock\<lparr>sent := sent sock @ [msg],
                      delivered := (if transportOk sock then delivered sock @ [msg]
                                    else delivered sock)\<rparr>))"

text \<open>
  \<open>broadcastReload\<close>: \<open>clients.forEach\<close>, with no handler around \<open>send\<close>, so an exception of
  \<open>send\<close> would end the loop.
\<close>

fun forEach_send :: "ws_id list \<Rightarrow> sockets \<Rightarrow> error + sockets" where
  "forEach_send [] h = Inr h"
| "forEach_send (client # rest) h =
     (if readyState (h client) = OPEN then
        (case ws_send (h client) ''reload'' of
           Inl err \<Rightarrow> Inl err
         | Inr sock \<Rightarrow> forEach_send rest (h(client := sock)))
      else forEach_send rest h)"

definition broadcastReload :: "RealTimeServer \<Rightarrow> sockets \<Rightarrow> error + sockets" where
  "broadcastReload this h = forEach_send (clients this) h"

text \<open>
  \<open>stop\<close>. Closing the watcher, the WebSocket server and the HTTP server raises nothing,
  so the \<open>catch\<close> branch, which raises the exception again, is never entered. What
  \<open>WebSocket.Server.close()\<close> does to the open sockets differs between versions of \<open>ws\<close>
  (up to 7 it terminates each of them, from 8 on it leaves them open) and no file of the
  repository fixes the version, so it is the parameter \<open>wssClose\<close>. \<open>stop\<close> itself calls
  neither \<open>close\<close> nor \<open>terminate\<close> on a socket.
\<close>

definition stop :: "(sockets \<Rightarrow> sockets) \<Rightarrow> RealTimeServer \<times> sockets \<Rightarrow> error + RealTimeServer \<times> sockets" where
  "stop wssClose st =
     (case st of (this, h) \<Rightarrow>
        if \<not> isRunning this then Inr (this, h)
        else
          let this1 = (case watcher this of
                         Some w \<Rightarrow> this\<lparr>watcher := None\<rparr>
                       | None \<Rightarrow> this);
              h1 = (case wss this1 of Some s \<Rightarrow> wssClose h | None \<Rightarrow> h);
              this2 = (case wss this1 of
                         Some s \<Rightarrow> this1\<lparr>wss := None\<rparr>
                       | None \<Rightarrow> this1);
              this3 = (case server this2 of
                         Some s \<Rightarrow> this2\<lparr>server := None\<rparr>
                       | None \<Rightarrow> this2);
              this4 = this3\<lparr>clients := []\<rparr>;
              this5 = this4\<lparr>isRunning := False\<rparr>
          in Inr (this5, h1))"

text \<open>The getters.\<close>

definition getIsRunning :: "RealTimeServer \<Rightarrow> bool" where
  "getIsRunning this = isRunning this"

definition getPort :: "RealTimeServer \<Rightarrow> nat" where
  "getPort this = port this"

definition getUrl :: "RealTimeServer \<Rightarrow> string" where
  "getUrl this = ''http://localhost:'' @ number_toString (port this)"

text \<open>\<open>terminate\<close> of every socket, as \<open>WebSocket.Server.close()\<close> of \<open>ws\<close> 7 does.\<close>

definition terminateAll :: "sockets \<Rightarrow> sockets" where
  "terminateAll h = (\<lambda>c. (h c)\<lparr>readyState := CLOSED\<rparr>)"

subsection \<open>Example sessions\<close>

text \<open>
  A project under \<open>/srv/app\<close> with the default port and entry file, one of its pages
  written in Latin-1 and so not well-formed UTF-8, beside a directory \<open>/srv/app-secret\<close>
  that is not part of it; and a project under \<open>/srv/site\<close> whose entry
  file is \<open>main.html\<close> and which has no \<open>index.html\<close>.
\<close>

definition app_fs :: "string \<Rightarrow> fs_node option" where
  "app_fs =
     [''/srv/app/index.html'' \<mapsto> RegularFile ''<html><body>Hi</body></html>'',
      ''/srv/app/style.css'' \<mapsto> RegularFile ''p { margin: 0 }'',
      ''/srv/app/old.htm'' \<mapsto> RegularFile ''<html><body>Old</body></html>'',
      ''/srv/app/bare.html'' \<mapsto> RegularFile ''<p>no body tag</p>'',
      ''/srv/app/two.html'' \<mapsto> RegularFile ''<body>a</body>b</body>'',
      ''/srv/app/latin1.html'' \<mapsto> RegularFile (''<p>caf'' @ [CHR 0xE9] @ ''</p>''),
      ''/srv/app-secret/x.txt'' \<mapsto> RegularFile ''secret'']"

definition app_env :: env where
  "app_env = \<lparr>fs = app_fs, mimeTypes = standardTypes\<rparr>"

definition app_server :: RealTimeServer where
  "app_server = new_RealTimeServer ''/srv/app'' None None"

definition site_fs :: "string \<Rightarrow> fs_node option" where
  "site_fs = [''/srv/site/main.html'' \<mapsto> RegularFile ''<html><body>Main</body></html>'']"

definition site_env :: env where
  "site_env = \<lparr>fs = site_fs, mimeTypes = standardTypes\<rparr>"

definition site_server :: RealTimeServer where
  "site_server = new_RealTimeServer ''/srv/site'' None (Some ''main.html'')"

text \<open>
  A session asked for port 0; two browser tabs, one connected over a transport that has
  broken, and a socket that has closed already.
\<close>

definition zero_server :: RealTimeServer where
  "zero_server = new_RealTimeServer ''/srv/app'' (Some 0) None"

definition tab :: websocket where
  "tab = \<lparr>readyState = OPEN, transportOk = True, sent = [], delivered = []\<rparr>"

definition tabs :: sockets where
  "tabs = (\<lambda>c. tab)(2 := tab\<lparr>transportOk := False\<rparr>, 3 := tab\<lparr>readyState := CLOSED\<rparr>)"

definition running_server :: RealTimeServer where
  "running_server =
     (snd (start (Listening 5500) app_server))\<lparr>clients := [1, 2, 3, 4]\<rparr>"

section \<open>Properties\<close>

subsection \<open>Strings and paths\<close>

lemmas path_defs = path_join_def normalize_def normalizeString_def normalizeStep_def

lemmas ext_defs = extname_def lastComponent_def stripTrailingSlashes_def toLowerCase_def
  toLowerChar_def

lemmas mime_defs = mime_getType_def afterLast_def standardTypes_def toLowerCase_def
  toLowerChar_def

lemmas request_defs = handleRequest_def resolveFile_def requestPath_def startsWith_def
  existsSync_def sendFile_def readFile_def new_RealTimeServer_def

text \<open>\<open>replace\<close> writes at the first occurrence, and nowhere when there is none.\<close>

lemma replace_indexOf:
  "replace d pat rep =
     (case indexOf d pat of None \<Rightarrow> d | Some n \<Rightarrow> take n d @ rep @ drop (n + length pat) d)"
  by (induction d) (auto split: option.splits)

lemma indexOf_None_iff: "indexOf d pat = None \<longleftrightarrow> \<not> str_includes d pat"
  by (induction d) auto

lemma indexOf_Some_prefix: "indexOf d pat = Some n \<Longrightarrow> n \<le> length d \<and> prefix pat (drop n d)"
  by (induction d arbitrary: n) (auto split: if_splits)

lemma indexOf_Some_first: "indexOf d pat = Some n \<Longrightarrow> i < n \<Longrightarrow> \<not> prefix pat (drop i d)"
proof (induction d arbitrary: n i)
  case Nil
  then show ?case by (simp split: if_splits)
next
  case (Cons c cs)
  show ?case
  proof (cases "prefix pat (c # cs)")
    case True
    with Cons.prems show ?thesis by simp
  next
    case False
    with Cons.prems obtain m where m: "indexOf cs pat = Some m" "n = Suc m" by auto
    show ?thesis
    proof (cases i)
      case 0
      with False show ?thesis by simp
    next
      case (Suc j)
      with Cons.prems m have "j < m" by simp
      from Cons.IH[OF m(1) this] Suc show ?thesis by simp
    qed
  qed
qed

lemma insert_before_first:
  assumes "indexOf d pat = Some n"
  shows "take n d @ (ins @ pat) @ drop (n + length pat) d = take n d @ ins @ drop n d"
proof -
  from indexOf_Some_prefix[OF assms] obtain rest where "drop n d = pat @ rest"
    by (auto simp: prefix_def)
  moreover have "drop (n + length pat) d = drop (length pat) (drop n d)"
    by (simp add: add.commute)
  ultimately show ?thesis by simp
qed

subsection \<open>UTF-8\<close>

text \<open>
  Decoding and encoding again gives back well-formed UTF-8, and ASCII text in particular;
  since no ASCII byte is part of a longer character, replacing an ASCII pattern in the
  decoded text and encoding the result is replacing it in the encoded text.
\<close>

lemmas utf8_defs = byte_def inRange_def bytesNeeded_def lowerBound_def upperBound_def
  replacementCharacter_def

lemma reencoded_wellFormed: "wellFormedUtf8 d \<Longrightarrow> reencoded d = d"
  unfolding reencoded_def encodeUtf8_def
proof (induction d rule: wellFormedUtf8.induct)
  case 1
  then show ?case by simp
next
  case (2 b1 rest)
  show ?case
  proof (cases "byte b1 < 0x80")
    case True
    with 2 show ?thesis by simp
  next
    case False
    with "2.prems" have n: "bytesNeeded b1 \<noteq> 0"
      "continuations (bytesNeeded b1) (lowerBound b1) (upperBound b1) rest = bytesNeeded b1"
      "wellFormedUtf8 (drop (bytesNeeded b1) rest)"
      by (simp_all add: Let_def)
    from "2.IH"(2)[OF False refl n(3)]
    have "concat (toString (drop (bytesNeeded b1) rest)) = drop (bytesNeeded b1) rest" .
    with False n show ?thesis by (simp add: Let_def)
  qed
qed

lemma isAscii_wellFormed: "isAscii d \<Longrightarrow> wellFormedUtf8 d"
  by (induction d) (simp_all add: isAscii_def)

lemma toString_ascii: "isAscii d \<Longrightarrow> toString d = jsLiteral d"
  by (induction d) (simp_all add: isAscii_def jsLiteral_def)

lemma lowerBound_ge: "0x80 \<le> lowerBound b"
  by (simp add: lowerBound_def)

lemma continuations_all:
  assumes "continuations n lo hi bs = n" and "0x80 \<le> lo"
  shows "list_all (\<lambda>c. 0x80 \<le> byte c) (take n bs)"
  using assms
proof (induction n lo hi bs rule: continuations.induct)
  case (1 n lo hi)
  then show ?case by simp
next
  case (2 n lo hi b bs)
  show ?case
  proof (cases "n = 0 \<or> \<not> inRange lo hi b")
    case True
    with "2.prems" show ?thesis by simp
  next
    case False
    then obtain m where m: "n = Suc m" by (cases n) auto
    from False "2.prems" m have c: "continuations m 0x80 0xBF bs = m" by simp
    from "2.IH"[OF False] c m have "list_all (\<lambda>c. 0x80 \<le> byte c) (take m bs)" by simp
    moreover from False "2.prems"(2) have "0x80 \<le> byte b" by (simp add: inRange_def)
    ultimately show ?thesis using m by simp
  qed
qed

lemma isCharacter_replacement: "isCharacter replacementCharacter"
  by (simp add: isCharacter_def replacementCharacter_def byte_def)

lemma toString_characters: "list_all isCharacter (toString d)"
proof (induction d rule: toString.induct)
  case 1
  then show ?case by simp
next
  case (2 b1 rest)
  show ?case
  proof (cases "byte b1 < 0x80")
    case True
    with 2 show ?thesis by (simp add: isCharacter_def)
  next
    case False
    define n where "n = bytesNeeded b1"
    define k where "k = continuations n (lowerBound b1) (upperBound b1) rest"
    show ?thesis
    proof (cases "n \<noteq> 0 \<and> k = n")
      case True
      then have "list_all (\<lambda>c. 0x80 \<le> byte c) (take n rest)"
        using continuations_all[of n "lowerBound b1" "upperBound b1" rest] lowerBound_ge
        by (simp add: k_def)
      with False have ch: "isCharacter (b1 # take n rest)"
        by (simp add: isCharacter_def)
      from "2.IH"(2)[OF False n_def k_def True]
      have "list_all isCharacter (toString (drop n rest))" .
      with ch False True show ?thesis
        by (simp add: Let_def n_def[symmetric] k_def[symmetric])
    next
      case F: False
      from "2.IH"(3)[OF False n_def k_def F]
      have "list_all isCharacter (toString (drop k rest))" .
      with isCharacter_replacement False F show ?thesis
        by (auto simp: Let_def n_def[symmetric] k_def[symmetric])
    qed
  qed
qed


lemma prefix_jsLiteral:
  assumes "list_all isCharacter t" and "isAscii p"
  shows "prefix (jsLiteral p) t \<longleftrightarrow> prefix p (concat t)"
  using assms
proof (induction p arbitrary: t)
  case Nil
  then show ?case by (simp add: jsLiteral_def)
next
  case (Cons c p)
  then have c: "byte c < 0x80" and p: "isAscii p" by (simp_all add: isAscii_def)
  show ?case
  proof (cases t)
    case Nil
    then show ?thesis by (simp add: jsLiteral_def)
  next
    case (Cons ch t')
    with Cons.prems have ch: "isCharacter ch" and t': "list_all isCharacter t'" by simp_all
    from ch obtain b bs where b: "ch = b # bs" by (cases ch) (auto simp: isCharacter_def)
    show ?thesis
    proof (cases "byte b < 0x80")
      case True
      with ch b have "ch = [b]" by (simp add: isCharacter_def)
      with Cons Cons.IH[OF t' p] show ?thesis by (simp add: jsLiteral_def)
    next
      case False
      with c have "b \<noteq> c" by auto
      with b Cons c False show ?thesis by (auto simp: jsLiteral_def)
    qed
  qed
qed

lemma replace_prefix:
  "prefix pat xs \<Longrightarrow> replace xs pat rep = rep @ drop (length pat) xs"
  by (cases xs) auto

lemma replace_skip:
  assumes "list_all (\<lambda>c. 0x80 \<le> byte c) ch" and "isAscii p" and "p \<noteq> []"
  shows "replace (ch @ rest) p r = ch @ replace rest p r"
  using assms
proof (induction ch)
  case Nil
  then show ?case by simp
next
  case (Cons b ch)
  from Cons.prems obtain c p' where p: "p = c # p'" "byte c < 0x80"
    by (cases p) (auto simp: isAscii_def)
  from Cons.prems have "0x80 \<le> byte b" by simp
  with p have "b \<noteq> c" by auto
  with p have "\<not> prefix p (b # ch @ rest)" by simp
  with Cons show ?case by simp
qed

lemma replace_concat:
  assumes "list_all isCharacter t" and "isAscii p" and "p \<noteq> []"
  shows "concat (replace t (jsLiteral p) (jsLiteral r)) = replace (concat t) p r"
  using assms
proof (induction t)
  case Nil
  then show ?case by (simp add: jsLiteral_def)
next
  case (Cons ch t)
  then have ch: "isCharacter ch" and t: "list_all isCharacter t" by simp_all
  have cj: "concat (jsLiteral s) = s" for s :: string
    by (induction s) (simp_all add: jsLiteral_def)
  show ?case
  proof (cases "prefix (jsLiteral p) (ch # t)")
    case True
    then obtain t'' where t'': "ch # t = jsLiteral p @ t''" by (auto simp: prefix_def)
    have l: "length (jsLiteral p) = length p" by (simp add: jsLiteral_def)
    from True have "replace (ch # t) (jsLiteral p) (jsLiteral r)
        = jsLiteral r @ drop (length p) (ch # t)"
      using replace_prefix[OF True, of "jsLiteral r"] l by simp
    then have lhs: "concat (replace (ch # t) (jsLiteral p) (jsLiteral r)) = r @ concat t''"
      using t'' l by (simp add: cj)
    from True have pp: "prefix p (concat (ch # t))"
      using prefix_jsLiteral[OF Cons.prems(1) Cons.prems(2)] by simp
    have "concat (ch # t) = p @ concat t''"
      using t'' by (metis concat_append cj)
    then have rhs: "replace (concat (ch # t)) p r = r @ concat t''"
      using replace_prefix[OF pp, of r] by simp
    show ?thesis using lhs rhs by simp
  next
    case False
    then have np: "\<not> prefix p (concat (ch # t))"
      using prefix_jsLiteral[OF Cons.prems(1) Cons.prems(2)] by simp
    from False have step: "replace (ch # t) (jsLiteral p) (jsLiteral r)
        = ch # replace t (jsLiteral p) (jsLiteral r)" by simp
    from ch obtain b bs where b: "ch = b # bs" by (cases ch) (auto simp: isCharacter_def)
    have "replace (ch @ concat t) p r = ch @ replace (concat t) p r"
    proof (cases "byte b < 0x80")
      case True
      with ch b have "ch = [b]" by (simp add: isCharacter_def)
      with np show ?thesis by simp
    next
      case F: False
      with ch b have "list_all (\<lambda>c. 0x80 \<le> byte c) ch" by (simp add: isCharacter_def)
      from replace_skip[OF this Cons.prems(2) Cons.prems(3)] show ?thesis .
    qed
    with step Cons.IH[OF t Cons.prems(2) Cons.prems(3)] show ?thesis by simp
  qed
qed

lemma concat_jsLiteral: "concat (jsLiteral s) = s"
  by (induction s) (simp_all add: jsLiteral_def)

lemma jsLiteral_append: "jsLiteral (a @ b) = jsLiteral a @ jsLiteral b"
  by (simp add: jsLiteral_def)

lemma reencoded_ascii: "isAscii d \<Longrightarrow> reencoded d = d"
  by (simp add: reencoded_wellFormed isAscii_wellFormed)

lemma replace_reencoded:
  assumes "isAscii pat" and "pat \<noteq> []"
  shows "encodeUtf8 (replace (toString d) (jsLiteral pat) (jsLiteral ins @ jsLiteral pat))
           = replace (reencoded d) pat (ins @ pat)"
  using replace_concat[OF toString_characters assms, of d "ins @ pat"]
  by (simp add: encodeUtf8_def reencoded_def jsLiteral_append)

subsection \<open>The script\<close>

text \<open>The script has no \<open>$\<close>, so \<open>replace\<close> copies it as it is.\<close>

lemma digits_of_number: "set (number_toString n) \<subseteq> set ''0123456789''"
proof (induction n rule: number_toString.induct)
  case (1 n)
  have d: "digit k \<in> set ''0123456789''" if "k < 10" for k
    unfolding digit_def using that nth_mem[of k "''0123456789''"] by simp
  show ?case
  proof (cases "n < 10")
    case True
    then show ?thesis using d[of n] by (subst number_toString.simps) simp
  next
    case False
    have "n mod 10 < 10" by simp
    with False 1 d[of "n mod 10"] show ?thesis
      by (subst number_toString.simps) simp
  qed
qed

lemma scriptHead_no_dollar: "CHR ''$'' \<notin> set scriptHead"
  by (simp add: scriptHead_def)

lemma scriptTail_no_dollar: "CHR ''$'' \<notin> set scriptTail"
  by (simp add: scriptTail_def)

lemma script_no_dollar: "CHR ''$'' \<notin> set (getWebSocketClientScript this)"
proof -
  have "CHR ''$'' \<notin> set ''0123456789''"
    by simp
  with digits_of_number[of "port this"]
  have "CHR ''$'' \<notin> set (number_toString (port this))"
    by blast
  with scriptHead_no_dollar scriptTail_no_dollar show ?thesis
    unfolding getWebSocketClientScript_def set_append by blast
qed

text \<open>The script is ASCII, so it is the same text as a JavaScript string and as bytes.\<close>

lemma isAscii_append: "isAscii (a @ b) \<longleftrightarrow> isAscii a \<and> isAscii b"
  by (simp add: isAscii_def)

lemma digits_ascii: "isAscii (number_toString n)"
proof -
  have "\<forall>c\<in>set ''0123456789''. byte c < 0x80"
    by (simp add: byte_def)
  with digits_of_number[of n] show ?thesis
    unfolding isAscii_def list_all_iff by blast
qed

lemma scriptHead_ascii: "isAscii scriptHead"
  by (simp add: scriptHead_def isAscii_def byte_def)

lemma scriptTail_ascii: "isAscii scriptTail"
  by (simp add: scriptTail_def isAscii_def byte_def)

lemma script_ascii: "isAscii (getWebSocketClientScript this)"
  unfolding getWebSocketClientScript_def isAscii_append
  using scriptHead_ascii digits_ascii scriptTail_ascii by blast

subsection \<open>The fallback path\<close>

text \<open>
  Joining \<open>index.html\<close> onto any root gives a path whose last component is
  \<open>index.html\<close>, so the fallback file always takes the \<open>.html\<close> branch.
\<close>

lemma segments_nonempty: "segments p \<noteq> []"
  by (induction p) (auto split: list.splits)

lemma segments_slash: "segments (a @ CHR ''/'' # b) = segments a @ segments b"
proof (induction a)
  case Nil
  then show ?case by simp
next
  case (Cons c a)
  then show ?case
    using segments_nonempty[of a] by (cases "segments a") auto
qed

lemma joinSegments_snoc:
  "joinSegments (res @ [s]) = (if res = [] then s else joinSegments res @ ''/'' @ s)"
  by (induction res rule: joinSegments.induct) auto

lemma normalizeString_index_html:
  "normalizeString (root @ ''/index.html'') aar
     = (let res = foldl (normalizeStep aar) [] (segments root)
        in if res = [] then ''index.html'' else joinSegments res @ ''/index.html'')"
proof -
  have seg: "segments (root @ ''/index.html'') = segments root @ [''index.html'']"
    using segments_slash[of root "''index.html''"] by simp
  have step: "normalizeStep aar res ''index.html'' = res @ [''index.html'']" for res
    by (simp add: normalizeStep_def)
  show ?thesis
    unfolding normalizeString_def seg
    by (simp add: step joinSegments_snoc Let_def)
qed

lemma path_join_index_html:
  "\<exists>dir. path_join root ''index.html'' = dir @ ''index.html'' \<and> (dir = [] \<or> last dir = CHR ''/'')"
proof (cases "root = []")
  case True
  then have "path_join root ''index.html'' = [] @ ''index.html''"
    by (simp add: path_defs)
  then show ?thesis by blast
next
  case False
  define res where "res = foldl (normalizeStep (hd root \<noteq> CHR ''/'')) [] (segments root)"
  define dir where "dir = (if hd root = CHR ''/'' then ''/'' else [])
                           @ (if res = [] then [] else joinSegments res @ ''/'')"
  have hd: "hd (root @ ''/index.html'') = hd root" using False by simp
  have lst: "last (root @ ''/index.html'') = CHR ''l''" by simp
  have pj: "path_join root ''index.html'' = normalize (root @ ''/index.html'')"
    using False by (simp add: path_join_def)
  have q: "normalizeString (root @ ''/index.html'') (hd root \<noteq> CHR ''/'')
             = (if res = [] then [] else joinSegments res @ ''/'') @ ''index.html''"
    unfolding normalizeString_index_html by (simp add: res_def Let_def)
  have "normalize (root @ ''/index.html'') = dir @ ''index.html''"
    unfolding normalize_def hd lst Let_def q dir_def by simp
  moreover have "dir = [] \<or> last dir = CHR ''/''"
    unfolding dir_def by simp
  ultimately show ?thesis using pj by metis
qed

lemma extname_index_html:
  assumes "dir = [] \<or> last dir = CHR ''/''"
  shows "toLowerCase (extname (dir @ ''index.html'')) = ''.html''"
proof -
  have tw: "takeWhile (\<lambda>c. c \<noteq> CHR ''/'') (rev dir) = []"
    using assms by (cases dir rule: rev_cases) auto
  have "lastComponent (dir @ ''index.html'') = ''index.html''"
    by (simp add: lastComponent_def stripTrailingSlashes_def tw)
  then show ?thesis
    by (simp add: extname_def toLowerCase_def toLowerChar_def)
qed

lemma extname_fallback: "toLowerCase (extname (path_join root ''index.html'')) = ''.html''"
proof -
  from path_join_index_html[of root] obtain dir where
    "path_join root ''index.html'' = dir @ ''index.html''" "dir = [] \<or> last dir = CHR ''/''"
    by blast
  then show ?thesis using extname_index_html[of dir] by simp
qed

subsection \<open>The static responder\<close>

lemma sendFile_regular:
  assumes "fs e p = Some (RegularFile d)"
  shows "sendFile e this p =
     (if toLowerCase (extname p) = ''.html'' then
        \<lparr>status = 200,
         contentType = (case mime_getType (mimeTypes e) p of Some t \<Rightarrow> t | None \<Rightarrow> ''text/html''),
         body = (case indexOf (reencoded d) ''</body>'' of
                   None \<Rightarrow> reencoded d
                 | Some n \<Rightarrow>
                     take n (reencoded d) @ getWebSocketClientScript this @ drop n (reencoded d))\<rparr>
      else
        \<lparr>status = 200,
         contentType = (case mime_getType (mimeTypes e) p of
                          Some t \<Rightarrow> t | None \<Rightarrow> ''application/octet-stream''),
         body = d\<rparr>)"
proof -
  have a: "isAscii ''</body>''"
    by (simp add: isAscii_def byte_def)
  have "encodeUtf8 (replace (toString d) (jsLiteral ''</body>'')
            (jsLiteral (getWebSocketClientScript this) @ jsLiteral ''</body>''))
          = (case indexOf (reencoded d) ''</body>'' of
               None \<Rightarrow> reencoded d
             | Some n \<Rightarrow>
                 take n (reencoded d) @ getWebSocketClientScript this @ drop n (reencoded d))"
  proof -
    have r: "encodeUtf8 (replace (toString d) (jsLiteral ''</body>'')
                (jsLiteral (getWebSocketClientScript this) @ jsLiteral ''</body>''))
              = replace (reencoded d) ''</body>'' (getWebSocketClientScript this @ ''</body>'')"
      by (rule replace_reencoded[OF a]) simp
    show ?thesis
    proof (cases "indexOf (reencoded d) ''</body>''")
      case None
      then show ?thesis
        unfolding r by (simp add: replace_indexOf)
    next
      case (Some n)
      from insert_before_first[OF Some, of "getWebSocketClientScript this"] Some
      show ?thesis
        unfolding r by (simp only: replace_indexOf option.case)
    qed
  qed
  then show ?thesis
    using assms by (simp only: sendFile_def readFile_def option.case fs_node.case sum.case)
qed

lemma resolveFile_found:
  assumes "startsWith (requestPath this url) (rootPath this)"
      and "fs e (requestPath this url) = Some node"
  shows "resolveFile e this url = Inr (requestPath this url)"
  using assms by (simp add: resolveFile_def existsSync_def)

lemma resolveFile_missing:
  assumes "startsWith (requestPath this url) (rootPath this)"
      and "\<not> existsSync e (requestPath this url)"
  shows "resolveFile e this url =
           (if existsSync e (path_join (rootPath this) ''index.html'')
            then Inr (path_join (rootPath this) ''index.html'')
            else Inl \<lparr>status = 404, contentType = ''text/plain'', body = ''File not found''\<rparr>)"
  using assms by (simp add: resolveFile_def)

lemma handleRequest_served:
  assumes "resolveFile e this url = Inr p"
      and "fs e p = Some (RegularFile d)"
  shows "handleRequest e this url =
     (if toLowerCase (extname p) = ''.html'' then
        \<lparr>status = 200,
         contentType = (case mime_getType (mimeTypes e) p of Some t \<Rightarrow> t | None \<Rightarrow> ''text/html''),
         body = (case indexOf (reencoded d) ''</body>'' of
                   None \<Rightarrow> reencoded d
                 | Some n \<Rightarrow>
                     take n (reencoded d) @ getWebSocketClientScript this @ drop n (reencoded d))\<rparr>
      else
        \<lparr>status = 200,
         contentType = (case mime_getType (mimeTypes e) p of
                          Some t \<Rightarrow> t | None \<Rightarrow> ''application/octet-stream''),
         body = d\<rparr>)"
  using assms(1) sendFile_regular[OF assms(2), of this] by (simp add: handleRequest_def)

text \<open>
  C1. The check of line 85 compares strings: a path that leaves the root for a sibling
  directory whose name begins with the root's name passes it. With the root
  \<open>/srv/app\<close>, the request \<open>/../app-secret/x.txt\<close> resolves to \<open>/srv/app-secret/x.txt\<close>,
  outside the root, and the file there is read and sent with status 200, not refused
  with 403.
\<close>

theorem C1_path_outside_root_is_served:
  "requestPath app_server (Some ''/../app-secret/x.txt'') = ''/srv/app-secret/x.txt''
   \<and> rootPath app_server = ''/srv/app''
   \<and> handleRequest app_env app_server (Some ''/../app-secret/x.txt'')
       = \<lparr>status = 200, contentType = ''text/plain'', body = ''secret''\<rparr>"
  by (simp add: request_defs path_defs ext_defs mime_defs app_server_def app_env_def app_fs_def)

text \<open>
  C2, as the claim states it, fails: in a session whose entry file \<open>main.html\<close> exists and
  whose root has no \<open>index.html\<close>, a request for a missing path is answered 404, not
  with the entry file.
\<close>

theorem C2_entry_file_is_not_the_fallback:
  "entryFile site_server = ''main.html''
   \<and> existsSync site_env (path_join (rootPath site_server) (entryFile site_server))
   \<and> startsWith (requestPath site_server (Some ''/missing.js'')) (rootPath site_server)
   \<and> \<not> existsSync site_env (requestPath site_server (Some ''/missing.js''))
   \<and> handleRequest site_env site_server (Some ''/missing.js'')
       = \<lparr>status = 404, contentType = ''text/plain'', body = ''File not found''\<rparr>"
  by (simp add: handleRequest_def resolveFile_def requestPath_def startsWith_def
        existsSync_def new_RealTimeServer_def path_defs site_server_def site_env_def site_fs_def)

text \<open>
  C2, amended. For every request whose path passes the check against the root and names
  nothing that exists, the responder falls back to \<open>index.html\<close> at the root, whatever
  the session's entry file is: 404 when \<open>index.html\<close> does not exist, 500 when it exists
  and cannot be read, and otherwise 200 with its text, that is, its content decoded as
  UTF-8 and encoded again (the content itself when that is well-formed UTF-8, lemma
  \<open>reencoded_wellFormed\<close>), the script put before the first \<open></body>\<close> of the text.
\<close>

theorem C2_fallback_is_index_html:
  assumes "startsWith (requestPath this url) (rootPath this)"
      and "\<not> existsSync e (requestPath this url)"
  shows "handleRequest e this url =
     (case fs e (path_join (rootPath this) ''index.html'') of
        None \<Rightarrow> \<lparr>status = 404, contentType = ''text/plain'', body = ''File not found''\<rparr>
      | Some Unreadable \<Rightarrow>
          \<lparr>status = 500, contentType = ''text/plain'', body = ''Internal server error''\<rparr>
      | Some (RegularFile d) \<Rightarrow>
          \<lparr>status = 200,
           contentType = (case mime_getType (mimeTypes e) (path_join (rootPath this) ''index.html'') of
                            Some t \<Rightarrow> t | None \<Rightarrow> ''text/html''),
           body = (case indexOf (reencoded d) ''</body>'' of
                     None \<Rightarrow> reencoded d
                   | Some n \<Rightarrow>
                       take n (reencoded d) @ getWebSocketClientScript this
                       @ drop n (reencoded d))\<rparr>)"
proof (cases "fs e (path_join (rootPath this) ''index.html'')")
  case None
  then show ?thesis
    using resolveFile_missing[OF assms] by (simp add: handleRequest_def existsSync_def)
next
  case (Some node)
  then have r: "handleRequest e this url = sendFile e this (path_join (rootPath this) ''index.html'')"
    using resolveFile_missing[OF assms] by (simp add: handleRequest_def existsSync_def)
  show ?thesis
  proof (cases node)
    case (RegularFile d)
    with Some have f: "fs e (path_join (rootPath this) ''index.html'') = Some (RegularFile d)"
      by simp
    show ?thesis
      unfolding r sendFile_regular[OF f] f
      by (simp add: extname_fallback)
  next
    case Unreadable
    with Some show ?thesis
      unfolding r by (simp add: sendFile_def readFile_def)
  qed
qed

text \<open>A missing path in the project whose \<open>index.html\<close> is the page of the example.\<close>

theorem C2_fallback_witness:
  "startsWith (requestPath app_server (Some ''/nope'')) (rootPath app_server)
   \<and> \<not> existsSync app_env (requestPath app_server (Some ''/nope''))
   \<and> handleRequest app_env app_server (Some ''/nope'')
       = \<lparr>status = 200, contentType = ''text/html'',
          body = ''<html><body>Hi'' @ getWebSocketClientScript app_server @ ''</body></html>''\<rparr>"
proof -
  have a: "startsWith (requestPath app_server (Some ''/nope'')) (rootPath app_server)"
    by (simp add: requestPath_def startsWith_def path_defs app_server_def new_RealTimeServer_def)
  have b: "\<not> existsSync app_env (requestPath app_server (Some ''/nope''))"
    by (simp add: requestPath_def existsSync_def path_defs app_server_def new_RealTimeServer_def
          app_env_def app_fs_def)
  have p: "path_join (rootPath app_server) ''index.html'' = ''/srv/app/index.html''"
    by (simp add: path_defs app_server_def new_RealTimeServer_def)
  have f: "fs app_env ''/srv/app/index.html'' = Some (RegularFile ''<html><body>Hi</body></html>'')"
    by (simp add: app_env_def app_fs_def)
  have m: "mime_getType (mimeTypes app_env) ''/srv/app/index.html'' = Some ''text/html''"
    by (simp add: mime_defs app_env_def)
  have u: "reencoded ''<html><body>Hi</body></html>'' = ''<html><body>Hi</body></html>''"
    by (rule reencoded_ascii) (simp add: isAscii_def byte_def)
  have i: "indexOf ''<html><body>Hi</body></html>'' ''</body>'' = Some 14"
    by simp
  show ?thesis
    using a b C2_fallback_is_index_html[OF a b] by (simp add: p f m u i)
qed

text \<open>
  C4. A file whose content type is HTML must carry the script. \<open>old.htm\<close> is sent with
  the content type \<open>text/html\<close>, which the MIME table gives to \<open>htm\<close>, and without the
  script: line 112 compares the extension with \<open>.html\<close> only, while the command that
  starts the server offers it for \<open>.htm\<close> pages as well.
\<close>

theorem C4_htm_is_html_without_script:
  "resolveFile app_env app_server (Some ''/old.htm'') = Inr ''/srv/app/old.htm''
   \<and> fs app_env ''/srv/app/old.htm'' = Some (RegularFile ''<html><body>Old</body></html>'')
   \<and> handleRequest app_env app_server (Some ''/old.htm'')
       = \<lparr>status = 200, contentType = ''text/html'', body = ''<html><body>Old</body></html>''\<rparr>"
  by (simp add: request_defs path_defs ext_defs mime_defs app_server_def app_env_def app_fs_def)

text \<open>
  C10, as the claim states it, fails: a page of the \<open>.html\<close> branch that has no
  \<open></body>\<close> and is written in Latin-1 is not sent unchanged; its byte \<open>E9\<close>, ill-formed
  as UTF-8, goes out as \<open>EF BF BD\<close>.
\<close>

theorem C10_latin1_page_is_changed:
  "resolveFile app_env app_server (Some ''/latin1.html'') = Inr ''/srv/app/latin1.html''
   \<and> fs app_env ''/srv/app/latin1.html'' = Some (RegularFile (''<p>caf'' @ [CHR 0xE9] @ ''</p>''))
   \<and> toLowerCase (extname ''/srv/app/latin1.html'') = ''.html''
   \<and> \<not> str_includes (''<p>caf'' @ [CHR 0xE9] @ ''</p>'') ''</body>''
   \<and> handleRequest app_env app_server (Some ''/latin1.html'')
       = \<lparr>status = 200, contentType = ''text/html'',
          body = ''<p>caf'' @ [CHR 0xEF, CHR 0xBF, CHR 0xBD] @ ''</p>''\<rparr>
   \<and> body (handleRequest app_env app_server (Some ''/latin1.html''))
       \<noteq> ''<p>caf'' @ [CHR 0xE9] @ ''</p>''"
proof -
  have r: "resolveFile app_env app_server (Some ''/latin1.html'') = Inr ''/srv/app/latin1.html''"
    by (simp add: resolveFile_def requestPath_def startsWith_def existsSync_def path_defs
          app_server_def new_RealTimeServer_def app_env_def app_fs_def)
  have f: "fs app_env ''/srv/app/latin1.html'' = Some (RegularFile (''<p>caf'' @ [CHR 0xE9] @ ''</p>''))"
    by (simp add: app_env_def app_fs_def)
  have x: "toLowerCase (extname ''/srv/app/latin1.html'') = ''.html''"
    by (simp add: ext_defs)
  have m: "mime_getType (mimeTypes app_env) ''/srv/app/latin1.html'' = Some ''text/html''"
    by (simp add: mime_defs app_env_def)
  have u: "reencoded (''<p>caf'' @ [CHR 0xE9] @ ''</p>'')
             = ''<p>caf'' @ [CHR 0xEF, CHR 0xBF, CHR 0xBD] @ ''</p>''"
    by (simp add: reencoded_def encodeUtf8_def utf8_defs)
  have i: "indexOf (''<p>caf'' @ [CHR 0xEF, CHR 0xBF, CHR 0xBD] @ ''</p>'') ''</body>'' = None"
    by simp
  have n: "\<not> str_includes (''<p>caf'' @ [CHR 0xE9] @ ''</p>'') ''</body>''"
    by simp
  have h: "handleRequest app_env app_server (Some ''/latin1.html'')
       = \<lparr>status = 200, contentType = ''text/html'',
          body = ''<p>caf'' @ [CHR 0xEF, CHR 0xBF, CHR 0xBD] @ ''</p>''\<rparr>"
    unfolding handleRequest_served[OF r f] x m u i by simp
  show ?thesis
    using r f x n unfolding h by simp
qed

text \<open>
  C10, amended. For every file sent by the \<open>.html\<close> branch, that is, every file whose
  extension is \<open>.html\<close> in any letter case: the status is 200; when its text (the content
  decoded as UTF-8 and encoded again) has no \<open></body>\<close>, the body is that text and
  nothing is inserted; when the first \<open></body>\<close> of the text starts at position \<open>n\<close>, the
  body is the text with the script inserted at \<open>n\<close>, every later occurrence being part
  of the untouched rest; and the text is the content itself, unchanged, when the content
  is well-formed UTF-8.
\<close>

theorem C10_html_branch_inserts_once:
  assumes "resolveFile e this url = Inr p"
      and "fs e p = Some (RegularFile d)"
      and "toLowerCase (extname p) = ''.html''"
  shows "status (handleRequest e this url) = 200
     \<and> (\<not> str_includes (reencoded d) ''</body>'' \<longrightarrow>
           body (handleRequest e this url) = reencoded d)
     \<and> (\<forall>n. indexOf (reencoded d) ''</body>'' = Some n \<longrightarrow>
           body (handleRequest e this url)
             = take n (reencoded d) @ getWebSocketClientScript this @ drop n (reencoded d)
           \<and> prefix ''</body>'' (drop n (reencoded d))
           \<and> (\<forall>i<n. \<not> prefix ''</body>'' (drop i (reencoded d))))
     \<and> (wellFormedUtf8 d \<longrightarrow> reencoded d = d)"
proof -
  have h: "handleRequest e this url =
        \<lparr>status = 200,
         contentType = (case mime_getType (mimeTypes e) p of Some t \<Rightarrow> t | None \<Rightarrow> ''text/html''),
         body = (case indexOf (reencoded d) ''</body>'' of
                   None \<Rightarrow> reencoded d
                 | Some n \<Rightarrow>
                     take n (reencoded d) @ getWebSocketClientScript this @ drop n (reencoded d))\<rparr>"
    using handleRequest_served[OF assms(1) assms(2)] assms(3) by simp
  have none: "\<not> str_includes (reencoded d) ''</body>'' \<Longrightarrow> indexOf (reencoded d) ''</body>'' = None"
    by (simp add: indexOf_None_iff)
  show ?thesis
    unfolding h
    using none indexOf_Some_prefix[of "reencoded d" "''</body>''"]
      indexOf_Some_first[of "reencoded d" "''</body>''"] reencoded_wellFormed[of d]
    by (auto simp del: indexOf.simps str_includes.simps)
qed

text \<open>A page without a closing body tag, and a page with two of them.\<close>

theorem C10_html_branch_witness:
  "resolveFile app_env app_server (Some ''/bare.html'') = Inr ''/srv/app/bare.html''
   \<and> wellFormedUtf8 ''<p>no body tag</p>''
   \<and> \<not> str_includes ''<p>no body tag</p>'' ''</body>''
   \<and> body (handleRequest app_env app_server (Some ''/bare.html'')) = ''<p>no body tag</p>''
   \<and> resolveFile app_env app_server (Some ''/two.html'') = Inr ''/srv/app/two.html''
   \<and> wellFormedUtf8 ''<body>a</body>b</body>''
   \<and> indexOf ''<body>a</body>b</body>'' ''</body>'' = Some 7
   \<and> body (handleRequest app_env app_server (Some ''/two.html''))
       = ''<body>a'' @ getWebSocketClientScript app_server @ ''</body>b</body>''"
proof -
  have r1: "resolveFile app_env app_server (Some ''/bare.html'') = Inr ''/srv/app/bare.html''"
    by (simp add: resolveFile_def requestPath_def startsWith_def existsSync_def path_defs
          app_server_def new_RealTimeServer_def app_env_def app_fs_def)
  have f1: "fs app_env ''/srv/app/bare.html'' = Some (RegularFile ''<p>no body tag</p>'')"
    by (simp add: app_env_def app_fs_def)
  have x1: "toLowerCase (extname ''/srv/app/bare.html'') = ''.html''"
    by (simp add: ext_defs)
  have w1: "wellFormedUtf8 ''<p>no body tag</p>''"
    by (rule isAscii_wellFormed) (simp add: isAscii_def byte_def)
  have n1: "\<not> str_includes ''<p>no body tag</p>'' ''</body>''"
    by simp
  have r2: "resolveFile app_env app_server (Some ''/two.html'') = Inr ''/srv/app/two.html''"
    by (simp add: resolveFile_def requestPath_def startsWith_def existsSync_def path_defs
          app_server_def new_RealTimeServer_def app_env_def app_fs_def)
  have f2: "fs app_env ''/srv/app/two.html'' = Some (RegularFile ''<body>a</body>b</body>'')"
    by (simp add: app_env_def app_fs_def)
  have x2: "toLowerCase (extname ''/srv/app/two.html'') = ''.html''"
    by (simp add: ext_defs)
  have w2: "wellFormedUtf8 ''<body>a</body>b</body>''"
    by (rule isAscii_wellFormed) (simp add: isAscii_def byte_def)
  have i2: "indexOf ''<body>a</body>b</body>'' ''</body>'' = Some 7"
    by simp
  note t1 = C10_html_branch_inserts_once[OF r1 f1 x1]
  note t2 = C10_html_branch_inserts_once[OF r2 f2 x2]
  from t1 w1 have u1: "reencoded ''<p>no body tag</p>'' = ''<p>no body tag</p>''"
    by blast
  from t2 w2 have u2: "reencoded ''<body>a</body>b</body>'' = ''<body>a</body>b</body>''"
    by blast
  have b1: "body (handleRequest app_env app_server (Some ''/bare.html'')) = ''<p>no body tag</p>''"
    using t1 n1 unfolding u1 by blast
  have "body (handleRequest app_env app_server (Some ''/two.html''))
       = take 7 ''<body>a</body>b</body>'' @ getWebSocketClientScript app_server
         @ drop 7 ''<body>a</body>b</body>''"
    using t2 i2 unfolding u2 by blast
  then have b2: "body (handleRequest app_env app_server (Some ''/two.html''))
       = ''<body>a'' @ getWebSocketClientScript app_server @ ''</body>b</body>''"
    by simp
  show ?thesis using r1 w1 n1 b1 r2 w2 i2 b2 by blast
qed

subsection \<open>The life cycle\<close>

lemmas start_defs = start_def start_call_def listen_callback_def bound_def setupFileWatcher_def

lemma start_running:
  assumes "isRunning this"
  shows "start r this = (Rejected already_running, this)"
  using assms by (simp add: start_defs)

lemma start_not_running:
  assumes "\<not> isRunning this"
  shows "start r this =
     (case r of
        ListenThrows err \<Rightarrow>
          (Rejected err,
           this\<lparr>server := Some (HttpServer None), wss := Some WebSocketServer,
                watcher := Some (FSWatcher (rootPath this))\<rparr>)
      | ListenErrorEvent err \<Rightarrow>
          (Pending,
           this\<lparr>server := Some (HttpServer None), wss := Some WebSocketServer,
                watcher := Some (FSWatcher (rootPath this))\<rparr>)
      | Listening p \<Rightarrow>
          (Resolved p,
           this\<lparr>server := Some (HttpServer (Some p)), wss := Some WebSocketServer,
                watcher := Some (FSWatcher (rootPath this)), isRunning := True\<rparr>))"
  using assms by (cases r) (simp_all add: start_defs Let_def)

lemma stop_not_running:
  assumes "\<not> isRunning this"
  shows "stop wssClose (this, h) = Inr (this, h)"
  using assms by (simp add: stop_def)

lemma stop_running:
  assumes "isRunning this"
  shows "stop wssClose (this, h) =
     Inr (this\<lparr>server := None, wss := None, clients := [], watcher := None, isRunning := False\<rparr>,
          (if wss this = None then h else wssClose h))"
  using assms
  by (cases "watcher this"; cases "wss this"; cases "server this") (simp_all add: stop_def Let_def)

text \<open>The session's port field is written by the constructor only.\<close>

lemma port_start: "port (snd (start r this)) = port this"
  by (cases "isRunning this"; cases r) (simp_all add: start_running start_not_running)

lemma port_stop: "stop wssClose (this, h) = Inr (this', h') \<Longrightarrow> port this' = port this"
  by (cases "isRunning this") (auto simp: stop_running stop_not_running)

text \<open>
  C3. \<open>start\<close> resolves with the port the socket is bound to, and the \<open>port\<close> field
  never changes; but the field keeps the port that was asked for, and the script is
  built from the field. A session asked for port 0 and bound to 49152 resolves with
  49152 and injects a script that opens \<open>ws://localhost:0\<close>.
\<close>

theorem C3_script_names_port_zero:
  "fst (start (Listening 49152) zero_server) = Resolved 49152
   \<and> server (snd (start (Listening 49152) zero_server)) = Some (HttpServer (Some 49152))
   \<and> getPort (snd (start (Listening 49152) zero_server)) = 0
   \<and> getWebSocketClientScript (snd (start (Listening 49152) zero_server))
       = scriptHead @ ''0'' @ scriptTail
   \<and> body (handleRequest app_env (snd (start (Listening 49152) zero_server)) (Some ''/''))
       = ''<html><body>Hi'' @ scriptHead @ ''0'' @ scriptTail @ ''</body></html>''"
proof -
  have s: "start (Listening 49152) zero_server =
     (Resolved 49152,
      zero_server\<lparr>server := Some (HttpServer (Some 49152)), wss := Some WebSocketServer,
                  watcher := Some (FSWatcher ''/srv/app''), isRunning := True\<rparr>)"
    by (simp add: start_not_running zero_server_def new_RealTimeServer_def)
  have n: "number_toString 0 = ''0''"
    by (simp add: digit_def)
  have p: "port (snd (start (Listening 49152) zero_server)) = 0"
    unfolding s by (simp add: zero_server_def new_RealTimeServer_def)
  have sc: "getWebSocketClientScript (snd (start (Listening 49152) zero_server))
       = scriptHead @ ''0'' @ scriptTail"
    unfolding getWebSocketClientScript_def p n by (rule refl)
  have q: "requestPath (snd (start (Listening 49152) zero_server)) (Some ''/'')
       = ''/srv/app/index.html''"
    unfolding s by (simp add: zero_server_def new_RealTimeServer_def requestPath_def path_defs)
  have rp: "rootPath (snd (start (Listening 49152) zero_server)) = ''/srv/app''"
    unfolding s by (simp add: zero_server_def new_RealTimeServer_def)
  have r: "resolveFile app_env (snd (start (Listening 49152) zero_server)) (Some ''/'')
       = Inr ''/srv/app/index.html''"
    unfolding resolveFile_def q rp
    by (simp add: startsWith_def existsSync_def app_env_def app_fs_def)
  have f: "fs app_env ''/srv/app/index.html'' = Some (RegularFile ''<html><body>Hi</body></html>'')"
    by (simp add: app_env_def app_fs_def)
  have x: "toLowerCase (extname ''/srv/app/index.html'') = ''.html''"
    by (simp add: ext_defs)
  have u: "reencoded ''<html><body>Hi</body></html>'' = ''<html><body>Hi</body></html>''"
    by (rule reencoded_ascii) (simp add: isAscii_def byte_def)
  have i: "indexOf ''<html><body>Hi</body></html>'' ''</body>'' = Some 14"
    by simp
  have b: "body (handleRequest app_env (snd (start (Listening 49152) zero_server)) (Some ''/''))
       = ''<html><body>Hi'' @ scriptHead @ ''0'' @ scriptTail @ ''</body></html>''"
    unfolding handleRequest_def r sum.case
      sendFile_regular[OF f, of "snd (start (Listening 49152) zero_server)"] x u i sc
    by simp
  have a: "fst (start (Listening 49152) zero_server) = Resolved 49152"
    "server (snd (start (Listening 49152) zero_server)) = Some (HttpServer (Some 49152))"
    unfolding s by simp_all
  show ?thesis
    using a p sc b unfolding getPort_def by blast
qed

text \<open>
  C7. A start that fails must be rejected and leave nothing running. When the port is
  in use, the promise of \<open>start\<close> is neither rejected nor resolved, since the callback
  that would reject is never called; and the watcher made by \<open>setupFileWatcher\<close> stays,
  watching, as do the two servers. \<open>stop\<close> does not release them, because the running
  flag is not set. A start that \<open>listen\<close> rejects at once, for a port out of range, is
  rejected, and leaves the same watcher and servers behind.
\<close>

theorem C7_bind_failure_never_settles:
  "start (ListenErrorEvent (Error ''EADDRINUSE'')) app_server =
     (Pending,
      app_server\<lparr>server := Some (HttpServer None), wss := Some WebSocketServer,
                 watcher := Some (FSWatcher ''/srv/app'')\<rparr>)
   \<and> start (ListenThrows (Error ''ERR_SOCKET_BAD_PORT'')) app_server =
     (Rejected (Error ''ERR_SOCKET_BAD_PORT''),
      app_server\<lparr>server := Some (HttpServer None), wss := Some WebSocketServer,
                 watcher := Some (FSWatcher ''/srv/app'')\<rparr>)
   \<and> stop terminateAll
         (app_server\<lparr>server := Some (HttpServer None), wss := Some WebSocketServer,
                     watcher := Some (FSWatcher ''/srv/app'')\<rparr>, tabs)
       = Inr (app_server\<lparr>server := Some (HttpServer None), wss := Some WebSocketServer,
                         watcher := Some (FSWatcher ''/srv/app'')\<rparr>, tabs)"
  by (simp add: start_not_running stop_not_running app_server_def new_RealTimeServer_def)

text \<open>
  C8, as the claim states it, fails for a session that is starting: between the call of
  \<open>start\<close> and the callback of \<open>listen\<close> the running flag is still unset, and a second
  call of \<open>start\<close> is not rejected; it makes the servers and the watcher again.
\<close>

theorem C8_second_start_while_starting:
  "start_call (Listening 5500) app_server =
     (Pending,
      app_server\<lparr>server := Some (HttpServer None), wss := Some WebSocketServer,
                 watcher := Some (FSWatcher ''/srv/app'')\<rparr>)
   \<and> start_call (Listening 5500)
         (app_server\<lparr>server := Some (HttpServer None), wss := Some WebSocketServer,
                     watcher := Some (FSWatcher ''/srv/app'')\<rparr>)
       = (Pending,
          app_server\<lparr>server := Some (HttpServer None), wss := Some WebSocketServer,
                     watcher := Some (FSWatcher ''/srv/app'')\<rparr>)"
  by (simp add: start_defs app_server_def new_RealTimeServer_def)

text \<open>
  C8, amended. For every session whose running flag is set, that is, once the callback
  of \<open>listen\<close> has run, \<open>start\<close> is rejected with the error
  \<open>Real-time server is already running\<close> and changes nothing.
\<close>

theorem C8_start_while_running:
  assumes "isRunning this"
  shows "start_call r this = (Rejected already_running, this)
     \<and> start r this = (Rejected already_running, this)"
  using assms by (simp add: start_defs)

theorem C8_start_while_running_witness:
  "isRunning running_server
   \<and> start (Listening 5500) running_server
       = (Rejected (Error ''Real-time server is already running''), running_server)"
proof -
  have a: "isRunning running_server"
    by (simp add: running_server_def start_not_running app_server_def new_RealTimeServer_def)
  show ?thesis
    using a C8_start_while_running[OF a, of "Listening 5500"] by (simp add: already_running_def)
qed

text \<open>
  C9. \<open>stop\<close> on a session that is not running returns the state as it is, without an
  error; and from any state, \<open>stop\<close> returns without an error a state that is not
  running, on which a second \<open>stop\<close> returns the same state, again without an error.
\<close>

theorem C9_stop_twice:
  "(\<not> isRunning this \<longrightarrow> stop wssClose (this, h) = Inr (this, h))
   \<and> (\<exists>this' h'. stop wssClose (this, h) = Inr (this', h')
         \<and> \<not> isRunning this'
         \<and> stop wssClose (this', h') = Inr (this', h'))"
proof (cases "isRunning this")
  case True
  then show ?thesis by (simp add: stop_running stop_not_running)
next
  case False
  then show ?thesis by (simp add: stop_not_running)
qed

theorem C9_stop_twice_witness:
  "\<not> isRunning app_server
   \<and> stop terminateAll (app_server, tabs) = Inr (app_server, tabs)
   \<and> isRunning running_server
   \<and> (\<exists>this' h'. stop terminateAll (running_server, tabs) = Inr (this', h')
         \<and> \<not> isRunning this'
         \<and> stop terminateAll (this', h') = Inr (this', h'))"
proof -
  have a: "\<not> isRunning app_server"
    by (simp add: app_server_def new_RealTimeServer_def)
  have b: "isRunning running_server"
    by (simp add: running_server_def start_not_running app_server_def new_RealTimeServer_def)
  show ?thesis
    using a b C9_stop_twice[of app_server terminateAll tabs]
      C9_stop_twice[of running_server terminateAll tabs]
    by blast
qed

subsection \<open>The reload channel\<close>

lemma ws_send_open:
  assumes "readyState sock = OPEN"
  shows "ws_send sock msg =
     Inr (sock\<lparr>sent := sent sock @ [msg],
               delivered := (if transportOk sock then delivered sock @ [msg]
                             else delivered sock)\<rparr>)"
  using assms by (simp add: ws_send_def)

lemma forEach_send_distinct:
  assumes "distinct cs"
  shows "forEach_send cs h =
     Inr (\<lambda>c. if c \<in> set cs \<and> readyState (h c) = OPEN
               then (h c)\<lparr>sent := sent (h c) @ [''reload''],
                          delivered := (if transportOk (h c) then delivered (h c) @ [''reload'']
                                        else delivered (h c))\<rparr>
               else h c)"
  using assms
proof (induction cs arbitrary: h)
  case Nil
  then show ?case by simp
next
  case (Cons client rest)
  then have d: "client \<notin> set rest" "distinct rest" by simp_all
  show ?case
  proof (cases "readyState (h client) = OPEN")
    case True
    define sock where "sock = (h client)\<lparr>sent := sent (h client) @ [''reload''],
        delivered := (if transportOk (h client) then delivered (h client) @ [''reload'']
                      else delivered (h client))\<rparr>"
    have step: "forEach_send (client # rest) h = forEach_send rest (h(client := sock))"
      using True by (simp add: ws_send_open sock_def)
    show ?thesis
      unfolding step Cons.IH[OF d(2)]
      using d(1) True by (auto simp: sock_def fun_eq_iff)
  next
    case False
    then have step: "forEach_send (client # rest) h = forEach_send rest h"
      by simp
    show ?thesis
      unfolding step Cons.IH[OF d(2)]
      using False by (auto simp: fun_eq_iff)
  qed
qed

lemma set_add_distinct: "distinct cs \<Longrightarrow> distinct (set_add ws cs)"
  by (simp add: set_add_def)

lemma set_delete_distinct: "distinct cs \<Longrightarrow> distinct (set_delete ws cs)"
  by (simp add: set_delete_def distinct_removeAll)

text \<open>The handlers keep the set free of duplicates, as a JavaScript \<open>Set\<close> is.\<close>

lemma on_connection_distinct: "distinct (clients this) \<Longrightarrow> distinct (clients (on_connection ws this))"
  by (simp add: on_connection_def set_add_distinct)

lemma on_close_distinct: "distinct (clients this) \<Longrightarrow> distinct (clients (on_close ws this))"
  by (simp add: on_close_def set_delete_distinct)

lemma on_error_distinct: "distinct (clients this) \<Longrightarrow> distinct (clients (on_error ws this))"
  by (simp add: on_error_def set_delete_distinct)

text \<open>
  C5, as the claim states it, fails when \<open>WebSocket.Server.close()\<close> leaves the open
  sockets alone, as it does from \<open>ws\<close> 8 on: \<open>stop\<close> empties the set, and the socket of
  tab 1, which was in the set, is as open as before.
\<close>

theorem C5_stop_leaves_sockets_open:
  "isRunning running_server
   \<and> clients running_server = [1, 2, 3, 4]
   \<and> readyState (tabs 1) = OPEN
   \<and> stop id (running_server, tabs)
       = Inr (running_server\<lparr>server := None, wss := None, clients := [], watcher := None,
                              isRunning := False\<rparr>, tabs)"
proof -
  have a: "isRunning running_server"
    by (simp add: running_server_def start_not_running app_server_def new_RealTimeServer_def)
  have c: "clients running_server = [1, 2, 3, 4]"
    by (simp add: running_server_def)
  have t: "readyState (tabs 1) = OPEN"
    by (simp add: tabs_def tab_def)
  show ?thesis
    using a c t by (simp add: stop_running)
qed

text \<open>
  C5, amended. For every running session, \<open>stop\<close> returns without an error, with the
  watcher, the WebSocket server and the HTTP server released, the running flag unset and
  the connection set empty. It calls neither \<open>close\<close> nor \<open>terminate\<close> on a connection:
  the sockets are what \<open>WebSocket.Server.close()\<close> makes of them.
\<close>

theorem C5_stop_empties_the_set:
  assumes "isRunning this"
  shows "stop wssClose (this, h) =
     Inr (this\<lparr>server := None, wss := None, clients := [], watcher := None, isRunning := False\<rparr>,
          (if wss this = None then h else wssClose h))"
  using assms
  by (cases "watcher this"; cases "wss this"; cases "server this") (simp_all add: stop_def Let_def)

text \<open>With the \<open>close()\<close> of \<open>ws\<close> 7, which terminates the sockets, they end up closed.\<close>

theorem C5_stop_empties_the_set_witness:
  "isRunning running_server
   \<and> (case stop terminateAll (running_server, tabs) of
         Inl err \<Rightarrow> False
       | Inr (this', h') \<Rightarrow>
           clients this' = [] \<and> \<not> isRunning this' \<and> h' = terminateAll tabs
           \<and> readyState (h' 1) = CLOSED)"
proof -
  have a: "isRunning running_server"
    by (simp add: running_server_def start_not_running app_server_def new_RealTimeServer_def)
  have w: "wss running_server = Some WebSocketServer"
    by (simp add: running_server_def start_not_running app_server_def new_RealTimeServer_def)
  show ?thesis
    using a unfolding C5_stop_empties_the_set[OF a] w
    by (simp add: terminateAll_def)
qed

text \<open>
  C6. \<open>broadcastReload\<close> returns without an error; every socket of the set that is open
  has been sent exactly one more frame, \<open>reload\<close>, which arrives unless that socket's own
  transport is broken; every other socket is untouched. So a socket that is not open is
  skipped, and a socket whose delivery fails takes nothing from the others.
\<close>

theorem C6_broadcast_reaches_every_open_socket:
  assumes "distinct (clients this)"
  shows "broadcastReload this h =
     Inr (\<lambda>c. if c \<in> set (clients this) \<and> readyState (h c) = OPEN
               then (h c)\<lparr>sent := sent (h c) @ [''reload''],
                          delivered := (if transportOk (h c) then delivered (h c) @ [''reload'']
                                        else delivered (h c))\<rparr>
               else h c)"
  unfolding broadcastReload_def by (rule forEach_send_distinct[OF assms])

text \<open>
  Four registered tabs: two healthy ones, one whose transport is broken and one that has
  closed; a fifth socket is not in the set.
\<close>

theorem C6_broadcast_witness:
  "distinct (clients running_server)
   \<and> (case broadcastReload running_server tabs of
         Inl err \<Rightarrow> False
       | Inr h' \<Rightarrow>
           h' 1 = \<lparr>readyState = OPEN, transportOk = True, sent = [''reload''], delivered = [''reload'']\<rparr>
           \<and> h' 2 = \<lparr>readyState = OPEN, transportOk = False, sent = [''reload''], delivered = []\<rparr>
           \<and> h' 3 = \<lparr>readyState = CLOSED, transportOk = True, sent = [], delivered = []\<rparr>
           \<and> h' 4 = \<lparr>readyState = OPEN, transportOk = True, sent = [''reload''], delivered = [''reload'']\<rparr>
           \<and> h' 5 = \<lparr>readyState = OPEN, transportOk = True, sent = [], delivered = []\<rparr>)"
proof -
  have c: "clients running_server = [1, 2, 3, 4]"
    by (simp add: running_server_def)
  have d: "distinct (clients running_server)"
    unfolding c by simp
  show ?thesis
    using d unfolding C6_broadcast_reaches_every_open_socket[OF d] c
    by (simp add: tabs_def tab_def)
qed

end
